theory Spec2Isabelle
  imports Complex_Main "HOL-Library.List_Lexorder" "HOL-Library.Char_ord"
begin

section \<open>Python values and strings\<close>

text \<open>
  Strings are lists of characters; a character stands for a code point below 256.
  The values a configuration map can hold are Python's \<open>None\<close>, booleans, integers,
  strings and lists of these (floating-point options are outside the model).
  An exception is a value of \<open>pyerror\<close>; a function that can raise returns
  \<open>pyerror + 'a\<close>, with \<open>Inl\<close> for the exception.
\<close>

datatype pyerror = ValueError | TypeError | IndexError | ZeroDivisionError | OverflowError | OtherError



definition is_space :: "char \<Rightarrow> bool" where
  \<comment> \<open>\<open>str.isspace\<close> on the code points below 256\<close>
  "is_space c = (let n = (of_char c :: nat) in
     (9 \<le> n \<and> n \<le> 13) \<or> (28 \<le> n \<and> n \<le> 32) \<or> n = 133 \<or> n = 160)"

definition py_strip :: "string \<Rightarrow> string" where
  \<comment> \<open>\<open>s.strip()\<close>\<close>
  "py_strip s = rev (dropWhile is_space (rev (dropWhile is_space s)))"



definition startswith :: "string \<Rightarrow> string \<Rightarrow> bool" where
  "startswith s p = (take (length p) s = p)"

definition endswith :: "string \<Rightarrow> string \<Rightarrow> bool" where
  "endswith s p = (length p \<le> length s \<and> drop (length s - length p) s = p)"

fun contains :: "string \<Rightarrow> string \<Rightarrow> bool" where
  \<comment> \<open>\<open>sub in s\<close>\<close>
  "contains sub [] = (sub = [])"
| "contains sub (c # cs) = (take (length sub) (c # cs) = sub \<or> contains sub cs)"

function py_split :: "string \<Rightarrow> string \<Rightarrow> string \<Rightarrow> string list" where
  \<comment> \<open>\<open>s.split(sep)\<close> for a non-empty separator, \<open>acc\<close> the piece being read\<close>
  "py_split sep acc s =
     (if s = [] then [acc]
      else if sep \<noteq> [] \<and> take (length sep) s = sep
        then acc # py_split sep [] (drop (length sep) s)
      else py_split sep (acc @ [hd s]) (tl s))"
  by pat_completeness auto
termination
  by (relation "measure (\<lambda>(sep, acc, s). length s)") auto

declare py_split.simps [simp del]

definition split :: "string \<Rightarrow> string \<Rightarrow> string list" where
  "split s sep = py_split sep [] s"



subsection \<open>\<open>int(...)\<close>, \<open>bool(...)\<close> and \<open>str(...)\<close>\<close>

definition is_digit :: "char \<Rightarrow> bool" where
  "is_digit c = (let n = (of_char c :: nat) in 48 \<le> n \<and> n \<le> 57)"

definition digit_val :: "char \<Rightarrow> nat" where
  "digit_val c = (of_char c :: nat) - 48"


definition nat_of_digits :: "string \<Rightarrow> nat" where
  "nat_of_digits s = foldl (\<lambda>n c. if c = CHR ''_'' then n else 10 * n + digit_val c) 0 s"

definition max_str_digits :: nat where
  \<comment> \<open>the interpreter's default limit on the digits of an \<open>int\<close>/\<open>str\<close> conversion\<close>
  "max_str_digits = 4300"






function digits_of :: "nat \<Rightarrow> string" where
  "digits_of n = (if n < 10 then [char_of (48 + n)] else digits_of (n div 10) @ [char_of (48 + n mod 10)])"
  by pat_completeness auto
termination
  by (relation "measure id") auto

declare digits_of.simps [simp del]





fun join :: "string \<Rightarrow> string list \<Rightarrow> string" where
  "join sep [] = []"
| "join sep [x] = x"
| "join sep (x # y # ys) = x @ sep @ join sep (y # ys)"



section \<open>The condition evaluator (template_loader.py)\<close>

subsection \<open>\<open>_evaluate_single_condition\<close>\<close>











subsection \<open>\<open>_evaluate_condition\<close>\<close>

fun is_outer :: "string \<Rightarrow> int \<Rightarrow> bool" where
  \<comment> \<open>the balance check of the stripping loop, \<open>depth\<close> the depth before the character;
     \<open>i < len(condition) - 1\<close> holds exactly when characters remain after the current one\<close>
  "is_outer [] depth = True"
| "is_outer (char # rest) depth =
     (if char = CHR ''('' then is_outer rest (depth + 1)
      else if char = CHR '')'' then
        (if depth - 1 = 0 \<and> rest \<noteq> [] then False else is_outer rest (depth - 1))
      else is_outer rest depth)"

function strip_outer :: "string \<Rightarrow> string" where
  \<comment> \<open>the \<open>while\<close> loop removing outer parentheses\<close>
  "strip_outer condition =
     (if startswith condition ''('' \<and> endswith condition '')'' \<and> is_outer condition 0
      then strip_outer (py_strip (butlast (tl condition)))
      else condition)"
  by pat_completeness auto

lemma length_py_strip: "length (py_strip s) \<le> length s"
proof -
  have "length (py_strip s) \<le> length (dropWhile is_space s)"
    unfolding py_strip_def using length_dropWhile_le [of is_space "rev (dropWhile is_space s)"]
    by simp
  also have "\<dots> \<le> length s" by (rule length_dropWhile_le)
  finally show ?thesis .
qed

lemma startswith_paren_nonempty: "startswith condition ''('' \<Longrightarrow> condition \<noteq> []"
  by (auto simp: startswith_def)

lemma length_inner: "condition \<noteq> [] \<Longrightarrow> length (py_strip (butlast (tl condition))) < length condition"
proof -
  assume "condition \<noteq> []"
  then have "length (butlast (tl condition)) < length condition" by (cases condition) auto
  with length_py_strip [of "butlast (tl condition)"] show ?thesis by linarith
qed

termination strip_outer
  by (relation "measure length") (auto dest: startswith_paren_nonempty intro: length_inner)

declare strip_outer.simps [simp del]

fun find_ops :: "string \<Rightarrow> nat \<Rightarrow> int \<Rightarrow> nat option \<Rightarrow> nat option \<Rightarrow> nat option \<times> nat option" where
  \<comment> \<open>the scan for operators outside parentheses: the rest of the string from index \<open>i\<close>,
     the depth, and \<open>or_pos\<close> and \<open>and_pos\<close> so far (\<open>None\<close> for the source's \<open>-1\<close>)\<close>
  "find_ops [] i depth or_pos and_pos = (or_pos, and_pos)"
| "find_ops (char # rest) i depth or_pos and_pos =
     (if char = CHR ''('' then find_ops rest (i + 1) (depth + 1) or_pos and_pos
      else if char = CHR '')'' then find_ops rest (i + 1) (depth - 1) or_pos and_pos
      else if depth = 0 then
        (if take 4 (char # rest) = '' or '' then find_ops rest (i + 1) depth (Some (i + 2)) and_pos
         else if take 5 (char # rest) = '' and '' then
           find_ops rest (i + 1) depth or_pos (if and_pos = None then Some (i + 2) else and_pos)
         else find_ops rest (i + 1) depth or_pos and_pos)
      else find_ops rest (i + 1) depth or_pos and_pos)"

definition strip_condition :: "string \<Rightarrow> string" where
  \<comment> \<open>the condition after \<open>strip()\<close> and the removal of outer parentheses\<close>
  "strip_condition condition = strip_outer (py_strip condition)"

definition or_pos :: "string \<Rightarrow> nat option" where
  "or_pos condition = fst (find_ops condition 0 0 None None)"

definition and_pos :: "string \<Rightarrow> nat option" where
  "and_pos condition = snd (find_ops condition 0 0 None None)"

definition or_left :: "string \<Rightarrow> string" where
  "or_left condition = py_strip (take (the (or_pos condition) - 2) condition)"

definition or_right :: "string \<Rightarrow> string" where
  "or_right condition = py_strip (drop (the (or_pos condition) + 2) condition)"

definition and_left :: "string \<Rightarrow> string" where
  "and_left condition = py_strip (take (the (and_pos condition) - 2) condition)"

definition and_right :: "string \<Rightarrow> string" where
  "and_right condition = py_strip (drop (the (and_pos condition) + 3) condition)"



lemma take_eq_length: "take n xs = ys \<Longrightarrow> length ys \<le> length xs"
  by (metis length_take min.cobounded1)

lemma length_strip_outer: "length (strip_outer condition) \<le> length condition"
proof (induction condition rule: strip_outer.induct)
  case (1 condition)
  show ?case
  proof (cases "startswith condition ''('' \<and> endswith condition '')'' \<and> is_outer condition 0")
    case True
    then have ne: "condition \<noteq> []" by (auto dest: startswith_paren_nonempty)
    from True "1.IH" have "length (strip_outer (py_strip (butlast (tl condition))))
        \<le> length (py_strip (butlast (tl condition)))" by simp
    also have "\<dots> < length condition" using ne by (rule length_inner)
    finally show ?thesis using True by (subst strip_outer.simps) simp
  next
    case False
    then show ?thesis by (subst strip_outer.simps) auto
  qed
qed

lemma length_strip_condition: "length (strip_condition condition) \<le> length condition"
  unfolding strip_condition_def
  using length_strip_outer [of "py_strip condition"] length_py_strip [of condition] by linarith

lemma find_ops_bounds:
  "find_ops s i depth op ap = (op', ap') \<Longrightarrow>
     (op' = op \<or> (\<exists>j. op' = Some (j + 2) \<and> i \<le> j \<and> j + 4 \<le> i + length s)) \<and>
     (ap' = ap \<or> (\<exists>j. ap' = Some (j + 2) \<and> i \<le> j \<and> j + 5 \<le> i + length s))"
proof (induction s arbitrary: i depth op ap)
  case Nil
  then show ?case by simp
next
  case (Cons char rest)
  have len4: "take 4 (char # rest) = '' or '' \<Longrightarrow> 4 \<le> length (char # rest)"
    by (drule take_eq_length) simp
  have len5: "take 5 (char # rest) = '' and '' \<Longrightarrow> 5 \<le> length (char # rest)"
    by (drule take_eq_length) simp
  let ?goal = "\<lambda>op ap. (op' = op \<or> (\<exists>j. op' = Some (j + 2) \<and> i \<le> j \<and> j + 4 \<le> i + length (char # rest))) \<and>
     (ap' = ap \<or> (\<exists>j. ap' = Some (j + 2) \<and> i \<le> j \<and> j + 5 \<le> i + length (char # rest)))"
  have step: "?goal op ap" if "find_ops rest (i + 1) d op ap = (op', ap')" for d
  proof -
    from Cons.IH [OF that] show ?thesis
      by (elim conjE disjE exE) auto
  qed
  consider (plain) d where "find_ops rest (i + 1) d op ap = (op', ap')"
    | (c_or) "take 4 (char # rest) = '' or ''" "find_ops rest (i + 1) depth (Some (i + 2)) ap = (op', ap')"
    | (c_and) "take 5 (char # rest) = '' and ''" "find_ops rest (i + 1) depth op (if ap = None then Some (i + 2) else ap) = (op', ap')"
    using Cons.prems by (auto split: if_splits)
  then show ?case
  proof cases
    case plain
    then show ?thesis by (rule step)
  next
    case c_or
    from Cons.IH [OF c_or(2)] len4 [OF c_or(1)] show ?thesis
      by (elim conjE disjE exE) (auto intro!: exI[of _ i])
  next
    case c_and
    from Cons.IH [OF c_and(2)] len5 [OF c_and(1)] show ?thesis
      by (elim conjE disjE exE) (auto split: if_splits intro!: exI[of _ i])
  qed
qed

lemma or_pos_bounds: "or_pos c = Some p \<Longrightarrow> 2 \<le> p \<and> p + 2 \<le> length c"
proof -
  assume a: "or_pos c = Some p"
  obtain op' ap' where f: "find_ops c 0 0 None None = (op', ap')" by force
  with a have "op' = Some p" by (simp add: or_pos_def)
  with find_ops_bounds [OF f] show ?thesis by auto
qed

lemma and_pos_bounds: "and_pos c = Some p \<Longrightarrow> 2 \<le> p \<and> p + 3 \<le> length c"
proof -
  assume a: "and_pos c = Some p"
  obtain op' ap' where f: "find_ops c 0 0 None None = (op', ap')" by force
  with a have "ap' = Some p" by (simp add: and_pos_def)
  with find_ops_bounds [OF f] show ?thesis by auto
qed

lemma or_operands_shorter:
  assumes "or_pos c \<noteq> None"
  shows "length (or_left c) < length c" and "length (or_right c) < length c"
proof -
  from assms obtain p where p: "or_pos c = Some p" by auto
  from or_pos_bounds [OF p] have b: "2 \<le> p" "p + 2 \<le> length c" by auto
  have "length (or_left c) \<le> length (take (p - 2) c)"
    unfolding or_left_def p option.sel by (rule length_py_strip)
  with b show "length (or_left c) < length c" by simp
  have "length (or_right c) \<le> length (drop (p + 2) c)"
    unfolding or_right_def p option.sel by (rule length_py_strip)
  with b show "length (or_right c) < length c" by simp
qed

lemma and_operands_shorter:
  assumes "and_pos c \<noteq> None"
  shows "length (and_left c) < length c" and "length (and_right c) < length c"
proof -
  from assms obtain p where p: "and_pos c = Some p" by auto
  from and_pos_bounds [OF p] have b: "2 \<le> p" "p + 3 \<le> length c" by auto
  have "length (and_left c) \<le> length (take (p - 2) c)"
    unfolding and_left_def p option.sel by (rule length_py_strip)
  with b show "length (and_left c) < length c" by simp
  have "length (and_right c) \<le> length (drop (p + 3) c)"
    unfolding and_right_def p option.sel by (rule length_py_strip)
  with b show "length (and_right c) < length c" by simp
qed





subsection \<open>Properties of the evaluator\<close>







lemma py_split_contains:
  "length (py_split sep acc s) \<noteq> 1 \<Longrightarrow> contains sep s"
proof (induction sep acc s rule: py_split.induct)
  case (1 sep acc s)
  show ?case
  proof (cases s)
    case Nil
    with "1.prems" show ?thesis by (simp add: py_split.simps)
  next
    case (Cons x xs)
    show ?thesis
    proof (cases "sep \<noteq> [] \<and> take (length sep) s = sep")
      case True
      then show ?thesis using Cons by auto
    next
      case False
      with "1.prems" Cons have "length (py_split sep (acc @ [hd s]) (tl s)) \<noteq> 1"
        by (subst (asm) py_split.simps) auto
      from "1.IH"(2) [OF _ False this] Cons have "contains sep xs" by simp
      then show ?thesis using Cons by simp
    qed
  qed
qed
















text \<open>
  C10. The recursion of \<open>_evaluate_condition\<close> is well-founded on the length of the
  condition: stripping never lengthens it, each round of the parenthesis loop shortens it,
  and both operands of an \<open>or\<close> or \<open>and\<close> split are strictly shorter than the condition.
\<close>
theorem evaluate_condition_terminates:
  "length (strip_condition condition) \<le> length condition \<and>
   (startswith c ''('' \<and> endswith c '')'' \<and> is_outer c 0
      \<longrightarrow> length (py_strip (butlast (tl c))) < length c) \<and>
   (or_pos (strip_condition condition) \<noteq> None
      \<longrightarrow> length (or_left (strip_condition condition)) < length condition \<and>
          length (or_right (strip_condition condition)) < length condition) \<and>
   (and_pos (strip_condition condition) \<noteq> None
      \<longrightarrow> length (and_left (strip_condition condition)) < length condition \<and>
          length (and_right (strip_condition condition)) < length condition)"
proof (intro conjI impI)
  show le: "length (strip_condition condition) \<le> length condition"
    by (rule length_strip_condition)
  show "length (py_strip (butlast (tl c))) < length c"
    if "startswith c ''('' \<and> endswith c '')'' \<and> is_outer c 0"
    using that by (auto dest: startswith_paren_nonempty intro: length_inner)
  show "length (or_left (strip_condition condition)) < length condition"
    and "length (or_right (strip_condition condition)) < length condition"
    if "or_pos (strip_condition condition) \<noteq> None"
    using or_operands_shorter [OF that] le by simp_all
  show "length (and_left (strip_condition condition)) < length condition"
    and "length (and_right (strip_condition condition)) < length condition"
    if "and_pos (strip_condition condition) \<noteq> None"
    using and_operands_shorter [OF that] le by simp_all
qed

theorem evaluate_condition_terminates_witness:
  "startswith ''(a)'' ''('' \<and> endswith ''(a)'' '')'' \<and> is_outer ''(a)'' 0 \<and>
   length (py_strip (butlast (tl ''(a)''))) < length ''(a)'' \<and>
   or_pos (strip_condition ''x or y'') \<noteq> None \<and>
   length (or_left (strip_condition ''x or y'')) < length ''x or y'' \<and>
   length (or_right (strip_condition ''x or y'')) < length ''x or y'' \<and>
   and_pos (strip_condition ''x and y'') \<noteq> None \<and>
   length (and_left (strip_condition ''x and y'')) < length ''x and y'' \<and>
   length (and_right (strip_condition ''x and y'')) < length ''x and y''"
proof -
  have h1: "startswith ''(a)'' ''('' \<and> endswith ''(a)'' '')'' \<and> is_outer ''(a)'' 0"
    by code_simp
  have h2: "or_pos (strip_condition ''x or y'') \<noteq> None" by code_simp
  have h3: "and_pos (strip_condition ''x and y'') \<noteq> None" by code_simp
  from h1 h2 h3
    evaluate_condition_terminates [of "''x or y''" "''(a)''"]
    evaluate_condition_terminates [of "''x and y''" "''(a)''"]
  show ?thesis by blast
qed

section \<open>Register validation (template_loader.py)\<close>












section \<open>Firmware versions (config_flow.py, template_loader.py)\<close>

text \<open>
  \<open>packaging.version\<close> is a library outside the repository. Its \<open>parse\<close> is a parameter
  of the model: it maps a string to \<open>None\<close> (the exception InvalidVersion) or to a
  version, which is a pair of the key by which versions are compared and ordered (a
  linear order) and of the normalised text that \<open>str\<close> gives.
\<close>

type_synonym 'k version = "'k \<times> string"

fun py_max :: "'k::linorder version \<Rightarrow> 'k version list \<Rightarrow> 'k version" where
  \<comment> \<open>\<open>max\<close> of a non-empty list, the first item and the rest: the first of the greatest\<close>
  "py_max m [] = m"
| "py_max m (v # vs) = py_max (if fst m < fst v then v else m) vs"

definition find_applicable_firmware_version ::
    "(string \<Rightarrow> 'k::linorder version option) \<Rightarrow> string \<Rightarrow> string list \<Rightarrow> string option" where
  "find_applicable_firmware_version parse current_version available_versions =
     (if available_versions = [] then None
      else case parse current_version of
        None \<Rightarrow>
          (if current_version \<in> set available_versions then Some current_version else None)
      | Some current_ver \<Rightarrow>
          (let applicable_versions =
                 filter (\<lambda>ver. fst ver \<le> fst current_ver)
                   (List.map_filter parse available_versions)
           in case applicable_versions of
                [] \<Rightarrow> None
              | v # vs \<Rightarrow> Some (snd (py_max v vs))))"


record sensor =
  firmware_min_version :: "string option"
  condition :: "string option"



subsection \<open>Release versions\<close>

text \<open>
  For concrete evaluations: \<open>parse\<close> on the strings that consist of one or more runs of
  digits separated by dots. The key of such a version is the list of its numbers without
  trailing zeros, compared as Python compares tuples; its text joins the numbers with
  dots. Other strings, among them further forms that the library accepts, are outside
  this fragment and are sent to \<open>None\<close>.
\<close>

fun dot_fields :: "string \<Rightarrow> string \<Rightarrow> string list" where
  \<comment> \<open>the runs between the dots, \<open>acc\<close> the run being read\<close>
  "dot_fields acc [] = [acc]"
| "dot_fields acc (c # cs) =
     (if c = CHR ''.'' then acc # dot_fields [] cs else dot_fields (acc @ [c]) cs)"

definition strip_trailing_zeros :: "nat list \<Rightarrow> nat list" where
  "strip_trailing_zeros ns = rev (dropWhile (\<lambda>n. n = 0) (rev ns))"

definition release_version :: "string \<Rightarrow> nat list version option" where
  "release_version s =
     (let fields = dot_fields [] s in
      if list_all (\<lambda>f. f \<noteq> [] \<and> list_all is_digit f \<and> length f \<le> max_str_digits) fields
      then Some (strip_trailing_zeros (map nat_of_digits fields),
                 join ''.'' (map (\<lambda>f. digits_of (nat_of_digits f)) fields))
      else None)"


subsection \<open>Properties of the firmware filters\<close>






text \<open>
  C5. With the available versions \<open>1.0\<close>, \<open>2.01\<close> and \<open>3.0\<close> and the current version
  \<open>2.10\<close>, \<open>_find_applicable_firmware_version\<close> returns \<open>2.1\<close>, the normalised text of
  the highest applicable version \<open>2.01\<close>, which is not one of the available versions.
\<close>
theorem find_applicable_returns_normalised_text:
  "find_applicable_firmware_version release_version ''2.10'' [''1.0'', ''2.01'', ''3.0'']
     = Some ''2.1'' \<and>
   ''2.1'' \<notin> set [''1.0'', ''2.01'', ''3.0'']"
  by code_simp

end
